theory Spec2Isabelle
  imports Main "HOL-Library.Multiset" "HOL-Library.Option_ord"
begin

section \<open>The license collection\<close>

text \<open>
  The Mongoose schema \<open>licenseSchema\<close> of \<open>src/index.js\<close>. A field that the schema leaves
  optional (\<open>type\<close>, and \<open>lastUsed\<close> with default \<open>null\<close>) is an option; \<open>deviceId\<close> is
  declared \<open>[String]\<close>, a list of strings. A \<open>Date\<close> is its number of milliseconds.
  The older server \<open>src/unnamed/part_000\<close> has the same schema without \<open>type\<close>: its
  documents have \<open>type = None\<close>.
\<close>

record license =
  licenseKey :: string
  type :: "string option"
  email :: string
  valid :: bool
  deviceId :: "string list"
  lastUsed :: "int option"

text \<open>The collection is the list of its documents, in insertion order.\<close>

type_synonym store = "license list"

text \<open>
  What a handler sends back: \<open>res.status(n).json({success, message})\<close> (status 200 when
  the handler calls \<open>res.json\<close> alone), the three counts of the summary, or the array of
  documents of a listing.
\<close>

datatype response =
  Json nat bool string
| Counts nat nat nat
| Docs "license list"

text \<open>
  A field of \<open>req.body\<close> or \<open>req.query\<close> is a string or is absent. JavaScript's \<open>!v\<close> holds
  of an absent field and of the empty string; \<open>present\<close> keeps exactly the values that
  pass the test \<open>if (!v) return 400\<close>.
\<close>

fun present :: "string option \<Rightarrow> string option" where
  "present None = None"
| "present (Some []) = None"
| "present (Some (c # cs)) = Some (c # cs)"

subsection \<open>The store operations the handlers call\<close>

text \<open>\<open>License.findOne({ licenseKey })\<close>: the first document with that key.\<close>

definition findOne :: "string \<Rightarrow> store \<Rightarrow> license option" where
  "findOne k s = find (\<lambda>l. licenseKey l = k) s"

text \<open>
  \<open>license.save()\<close> on a document loaded by \<open>findOne\<close>: the loaded document is the first
  one with its key, and no handler assigns \<open>licenseKey\<close>, so the write replaces the first
  document with the key of \<open>d\<close>.
\<close>

fun save :: "license \<Rightarrow> store \<Rightarrow> store" where
  "save d [] = []"
| "save d (l # s) = (if licenseKey l = licenseKey d then d # s else l # save d s)"

text \<open>\<open>newLicense.save()\<close> on a document made by \<open>new License(...)\<close>: an insertion.\<close>

definition insert_new :: "license \<Rightarrow> store \<Rightarrow> store" where
  "insert_new d s = s @ [d]"

text \<open>\<open>License.findOneAndDelete({ licenseKey })\<close>: removes the first document with the key.\<close>

fun delete_first :: "string \<Rightarrow> store \<Rightarrow> store" where
  "delete_first k [] = []"
| "delete_first k (l # s) = (if licenseKey l = k then s else l # delete_first k s)"

definition findOneAndDelete :: "string \<Rightarrow> store \<Rightarrow> license option \<times> store" where
  "findOneAndDelete k s = (findOne k s, delete_first k s)"

text \<open>
  \<open>.sort({ lastUsed: -1 })\<close>: descending on \<open>lastUsed\<close>. MongoDB compares \<open>null\<close> below
  every date, which is the order of \<open>int option\<close> with \<open>None\<close> least. MongoDB fixes no
  order among documents with equal keys; the model takes one of them.
\<close>

definition sort_lastUsed_desc :: "license list \<Rightarrow> license list" where
  "sort_lastUsed_desc ds = rev (sort_key lastUsed ds)"

section \<open>The handlers of \<open>src/index.js\<close>\<close>

text \<open>\<open>req.query.type || "sender"\<close>.\<close>

definition required_type :: "string option \<Rightarrow> string" where
  "required_type q = (case present q of Some t \<Rightarrow> t | None \<Rightarrow> ''sender'')"

text \<open>
  \<open>POST /validate\<close>. \<open>now\<close> is the value of \<open>new Date()\<close>, \<open>q\<close> is \<open>req.query.type\<close>, \<open>bk\<close> and
  \<open>bd\<close> are \<open>req.body.licenseKey\<close> and \<open>req.body.deviceId\<close>. The branch
  \<open>!Array.isArray(license.deviceId)\<close> is not taken on a document of the schema, whose
  \<open>deviceId\<close> is an array.
\<close>

definition validate ::
  "int \<Rightarrow> string option \<Rightarrow> string option \<Rightarrow> string option \<Rightarrow> store \<Rightarrow> response \<times> store" where
  "validate now q bk bd s =
    (case (present bk, present bd) of
       (Some k, Some d) \<Rightarrow>
         (case findOne k s of
            None \<Rightarrow> (Json 403 False ''Invalid license'', s)
          | Some license \<Rightarrow>
              if \<not> valid license then (Json 403 False ''Invalid license'', s)
              else if type license \<noteq> Some (required_type q)
                then (Json 403 False ''License type mismatch'', s)
              else if d \<notin> set (deviceId license) then
                (if length (deviceId license) \<ge> 1
                 then (Json 403 False ''License revoked: used on multiple devices.'',
                       save (license\<lparr>valid := False\<rparr>) s)
                 else (Json 200 True ''License validated successfully'',
                       save (license\<lparr>deviceId := deviceId license @ [d],
                                      lastUsed := Some now\<rparr>) s))
              else (Json 200 True ''License validated successfully'',
                    save (license\<lparr>lastUsed := Some now\<rparr>) s))
     | _ \<Rightarrow> (Json 400 False ''Missing fields'', s))"

text \<open>
  \<open>POST /generate\<close>. The new document takes the schema's defaults: \<open>valid = true\<close>,
  \<open>deviceId = []\<close>, \<open>lastUsed = null\<close>; \<open>type\<close> is stored as the body gives it.
\<close>

definition generate ::
  "string option \<Rightarrow> string option \<Rightarrow> string option \<Rightarrow> store \<Rightarrow> response \<times> store" where
  "generate bemail bk btype s =
    (case (present bemail, present bk) of
       (Some e, Some k) \<Rightarrow>
         (case findOne k s of
            Some existing \<Rightarrow> (Json 409 False ''License already exists'', s)
          | None \<Rightarrow>
              (Json 200 True ''License created'',
               insert_new \<lparr>licenseKey = k, type = btype, email = e, valid = True,
                           deviceId = [], lastUsed = None\<rparr> s))
     | _ \<Rightarrow> (Json 400 False ''Missing fields'', s))"

text \<open>\<open>GET /licenses/summary\<close>: three \<open>countDocuments\<close> calls.\<close>

definition countDocuments :: "(license \<Rightarrow> bool) \<Rightarrow> store \<Rightarrow> nat" where
  "countDocuments p s = length (filter p s)"

definition summary :: "store \<Rightarrow> response \<times> store" where
  "summary s =
    (let totalLicenses = countDocuments (\<lambda>l. True) s;
         activeLicenses = countDocuments (\<lambda>l. valid l = True) s;
         revokedLicenses = countDocuments (\<lambda>l. valid l = False) s
     in (Counts totalLicenses activeLicenses revokedLicenses, s))"

text \<open>\<open>GET /licenses/:type\<close>: \<open>License.find({ type: type }).sort({ lastUsed: -1 })\<close>.\<close>

definition licenses_of_type :: "string \<Rightarrow> store \<Rightarrow> response \<times> store" where
  "licenses_of_type t s = (Docs (sort_lastUsed_desc (filter (\<lambda>l. type l = Some t) s)), s)"

text \<open>\<open>POST /licenses/delete\<close>.\<close>

definition delete_license :: "string option \<Rightarrow> store \<Rightarrow> response \<times> store" where
  "delete_license bk s =
    (case present bk of
       None \<Rightarrow> (Json 400 False ''Missing license key'', s)
     | Some k \<Rightarrow>
         (case findOneAndDelete k s of
            (None, s') \<Rightarrow> (Json 404 False ''License not found'', s')
          | (Some deleted, s') \<Rightarrow> (Json 200 True ''License deleted successfully'', s')))"

text \<open>\<open>POST /licenses/revoke\<close>.\<close>

definition revoke :: "string option \<Rightarrow> store \<Rightarrow> response \<times> store" where
  "revoke bk s =
    (case present bk of
       None \<Rightarrow> (Json 400 False ''Missing license key'', s)
     | Some k \<Rightarrow>
         (case findOne k s of
            None \<Rightarrow> (Json 404 False ''License not found'', s)
          | Some license \<Rightarrow>
              if \<not> valid license then (Json 400 False ''License is already revoked'', s)
              else (Json 200 True ''License revoked successfully'',
                    save (license\<lparr>valid := False\<rparr>) s)))"

text \<open>
  \<open>POST /licenses/reactivate\<close>. \<open>resetDevices\<close> is the truth value of
  \<open>req.body.resetDevices\<close>.
\<close>

definition reactivate :: "string option \<Rightarrow> bool \<Rightarrow> store \<Rightarrow> response \<times> store" where
  "reactivate bk resetDevices s =
    (case present bk of
       None \<Rightarrow> (Json 400 False ''Missing licenseKey'', s)
     | Some k \<Rightarrow>
         (case findOne k s of
            None \<Rightarrow> (Json 404 False ''License not found'', s)
          | Some license \<Rightarrow>
              (Json 200 True ''License reactivated successfully'',
               save (if resetDevices then license\<lparr>valid := True, deviceId := []\<rparr>
                     else license\<lparr>valid := True\<rparr>) s)))"

section \<open>The handlers of \<open>src/unnamed/part_000\<close> that differ\<close>

text \<open>
  The older server has no \<open>type\<close>: its \<open>POST /validate\<close> has no type check and its
  \<open>GET /licenses\<close> lists every document. Its summary and revoke handlers are those above,
  word for word.
\<close>

definition validate_part0 ::
  "int \<Rightarrow> string option \<Rightarrow> string option \<Rightarrow> store \<Rightarrow> response \<times> store" where
  "validate_part0 now bk bd s =
    (case (present bk, present bd) of
       (Some k, Some d) \<Rightarrow>
         (case findOne k s of
            None \<Rightarrow> (Json 403 False ''Invalid license'', s)
          | Some license \<Rightarrow>
              if \<not> valid license then (Json 403 False ''Invalid license'', s)
              else if d \<notin> set (deviceId license) then
                (if length (deviceId license) \<ge> 1
                 then (Json 403 False ''License revoked: used on multiple devices.'',
                       save (license\<lparr>valid := False\<rparr>) s)
                 else (Json 200 True ''License validated successfully'',
                       save (license\<lparr>deviceId := deviceId license @ [d],
                                      lastUsed := Some now\<rparr>) s))
              else (Json 200 True ''License validated successfully'',
                    save (license\<lparr>lastUsed := Some now\<rparr>) s))
     | _ \<Rightarrow> (Json 400 False ''Missing fields'', s))"

definition licenses_part0 :: "store \<Rightarrow> response \<times> store" where
  "licenses_part0 s = (Docs (sort_lastUsed_desc s), s)"

section \<open>Requests applied one after the other\<close>

text \<open>A request of \<open>src/index.js\<close>, with the fields its handler reads.\<close>

datatype request =
  Validate "string option" "string option" "string option"
| Generate "string option" "string option" "string option"
| Summary
| Licenses string
| Delete "string option"
| Revoke "string option"
| Reactivate "string option" bool

fun handle :: "int \<Rightarrow> request \<Rightarrow> store \<Rightarrow> response \<times> store" where
  "handle now (Validate q bk bd) s = validate now q bk bd s"
| "handle now (Generate bemail bk btype) s = generate bemail bk btype s"
| "handle now Summary s = summary s"
| "handle now (Licenses t) s = licenses_of_type t s"
| "handle now (Delete bk) s = delete_license bk s"
| "handle now (Revoke bk) s = revoke bk s"
| "handle now (Reactivate bk resetDevices) s = reactivate bk resetDevices s"

text \<open>Each request arrives with the time at which it is handled.\<close>

fun run :: "(int \<times> request) list \<Rightarrow> store \<Rightarrow> store" where
  "run [] s = s"
| "run ((now, r) # rs) s = run rs (snd (handle now r s))"

fun is_validate :: "request \<Rightarrow> bool" where
  "is_validate (Validate q bk bd) = True"
| "is_validate _ = False"

section \<open>Vocabulary of the properties\<close>

text \<open>The license key a request carries in its body, if it carries one.\<close>

fun request_key :: "request \<Rightarrow> string option" where
  "request_key (Validate q bk bd) = bk"
| "request_key (Generate bemail bk btype) = bk"
| "request_key Summary = None"
| "request_key (Licenses t) = None"
| "request_key (Delete bk) = bk"
| "request_key (Revoke bk) = bk"
| "request_key (Reactivate bk resetDevices) = bk"

text \<open>The two operator requests that take the document of key \<open>k\<close> out of its revoked state.\<close>

fun releases :: "string \<Rightarrow> request \<Rightarrow> bool" where
  "releases k (Delete bk) = (bk = Some k)"
| "releases k (Reactivate bk resetDevices) = (bk = Some k)"
| "releases k _ = False"

text \<open>The devices bound to key \<open>k\<close>: those of its document, none when it has no document.\<close>

definition bound_devices :: "string \<Rightarrow> store \<Rightarrow> string list" where
  "bound_devices k s = (case findOne k s of None \<Rightarrow> [] | Some l \<Rightarrow> deviceId l)"

text \<open>A document of key \<open>KEY1\<close> for the worked examples.\<close>

definition sample_license :: "string option \<Rightarrow> bool \<Rightarrow> string list \<Rightarrow> license" where
  "sample_license t v ds =
     \<lparr>licenseKey = ''KEY1'', type = t, email = ''a@x.com'', valid = v,
      deviceId = ds, lastUsed = None\<rparr>"

section \<open>Facts about the store operations\<close>

lemma present_eq_Some: "present v = Some k \<longleftrightarrow> v = Some k \<and> k \<noteq> []"
  by (cases v rule: present.cases) auto

lemma present_eq_None: "present v = None \<longleftrightarrow> v = None \<or> v = Some []"
  by (cases v rule: present.cases) auto

lemma findOne_Some_key: "findOne k s = Some l \<Longrightarrow> licenseKey l = k"
  by (auto simp: findOne_def find_Some_iff)

lemma findOne_Some_mem: "findOne k s = Some l \<Longrightarrow> l \<in> set s"
  by (auto simp: findOne_def find_Some_iff)

lemma findOne_None_iff: "findOne k s = None \<longleftrightarrow> k \<notin> licenseKey ` set s"
  by (auto simp: findOne_def find_None_iff)

lemma findOne_save_same:
  "findOne k s = Some l \<Longrightarrow> licenseKey d = k \<Longrightarrow> findOne k (save d s) = Some d"
  by (induction s) (auto simp: findOne_def)

lemma findOne_save_other: "k \<noteq> licenseKey d \<Longrightarrow> findOne k (save d s) = findOne k s"
  by (induction s) (auto simp: findOne_def)

lemma keys_save: "map licenseKey (save d s) = map licenseKey s"
  by (induction s) auto

lemma set_save_subset: "set (save d s) \<subseteq> insert d (set s)"
  by (induction s) auto

lemma mem_save: "x \<in> set (save d s) \<Longrightarrow> x = d \<or> x \<in> set s"
  using set_save_subset [of d s] by auto

lemma findOne_insert_new:
  "findOne k (insert_new d s) =
     (case findOne k s of Some l \<Rightarrow> Some l
      | None \<Rightarrow> if licenseKey d = k then Some d else None)"
  by (induction s) (auto simp: findOne_def insert_new_def)

lemma findOne_insert_other: "licenseKey d \<noteq> k \<Longrightarrow> findOne k (insert_new d s) = findOne k s"
  by (simp add: findOne_insert_new split: option.splits)

lemma findOne_delete_other: "k \<noteq> k' \<Longrightarrow> findOne k (delete_first k' s) = findOne k s"
  by (induction s) (auto simp: findOne_def)

lemma keys_delete_first: "map licenseKey (delete_first k s) = remove1 k (map licenseKey s)"
  by (induction s) auto

lemma set_delete_first_subset: "set (delete_first k s) \<subseteq> set s"
  by (induction s) auto

lemma findOne_delete_distinct:
  "distinct (map licenseKey s) \<Longrightarrow> findOne k (delete_first k s) = None"
  by (simp add: findOne_None_iff keys_delete_first flip: set_map)

lemma mset_sort_lastUsed_desc: "mset (sort_lastUsed_desc ds) = mset ds"
  by (simp add: sort_lastUsed_desc_def)

lemma sorted_sort_lastUsed_desc:
  "sorted_wrt (\<lambda>a b. lastUsed b \<le> lastUsed a) (sort_lastUsed_desc ds)"
proof -
  have "sorted (map lastUsed (sort_key lastUsed ds))" by (rule sorted_sort_key)
  then have "sorted_wrt (\<lambda>a b. lastUsed a \<le> lastUsed b) (sort_key lastUsed ds)"
    by (simp add: sorted_wrt_map)
  then show ?thesis by (simp add: sort_lastUsed_desc_def sorted_wrt_rev)
qed

section \<open>Facts about the handlers\<close>

subsection \<open>What \<open>POST /validate\<close> does to a document that passes or fails its first checks\<close>

lemma validate_dead:
  assumes "findOne k s = None \<or> (\<exists>l. findOne k s = Some l \<and> \<not> valid l)" and "k \<noteq> []"
  shows "validate now q (Some k) bd s =
           (if present bd \<noteq> None then Json 403 False ''Invalid license''
            else Json 400 False ''Missing fields'', s)"
  using assms by (auto simp: validate_def present_eq_Some present_eq_None split: option.splits)

lemma validate_live:
  assumes "findOne k s = Some l" and "valid l" and "k \<noteq> []" and "d \<noteq> []"
    and "type l = Some (required_type q)"
  shows "validate now q (Some k) (Some d) s =
    (if d \<in> set (deviceId l)
     then (Json 200 True ''License validated successfully'', save (l\<lparr>lastUsed := Some now\<rparr>) s)
     else if deviceId l \<noteq> []
     then (Json 403 False ''License revoked: used on multiple devices.'',
           save (l\<lparr>valid := False\<rparr>) s)
     else (Json 200 True ''License validated successfully'',
           save (l\<lparr>deviceId := [d], lastUsed := Some now\<rparr>) s))"
proof -
  have "present (Some k) = Some k" and "present (Some d) = Some d"
    using assms by (simp_all add: present_eq_Some)
  moreover have "(1 \<le> length (deviceId l)) = (deviceId l \<noteq> [])"
    by (cases "deviceId l") simp_all
  ultimately show ?thesis using assms by (simp add: validate_def)
qed

lemma validate_part0_dead:
  assumes "findOne k s = None \<or> (\<exists>l. findOne k s = Some l \<and> \<not> valid l)" and "k \<noteq> []"
  shows "validate_part0 now (Some k) bd s =
           (if present bd \<noteq> None then Json 403 False ''Invalid license''
            else Json 400 False ''Missing fields'', s)"
  using assms
  by (auto simp: validate_part0_def present_eq_Some present_eq_None split: option.splits)

lemma validate_part0_second_device_revokes:
  assumes "findOne k s = Some l" and "valid l" and "deviceId l \<noteq> []"
    and "d \<notin> set (deviceId l)" and "k \<noteq> []" and "d \<noteq> []"
  shows "validate_part0 now (Some k) (Some d) s =
           (Json 403 False ''License revoked: used on multiple devices.'',
            save (l\<lparr>valid := False\<rparr>) s)"
    and "findOne k (save (l\<lparr>valid := False\<rparr>) s) = Some (l\<lparr>valid := False\<rparr>)"
    and "validate_part0 now' (Some k) bd' (save (l\<lparr>valid := False\<rparr>) s) =
           (if present bd' \<noteq> None then Json 403 False ''Invalid license''
            else Json 400 False ''Missing fields'', save (l\<lparr>valid := False\<rparr>) s)"
proof -
  have "present (Some k) = Some k" and "present (Some d) = Some d"
    using assms by (simp_all add: present_eq_Some)
  moreover have "1 \<le> length (deviceId l)"
    using assms(3) by (cases "deviceId l") simp_all
  ultimately show "validate_part0 now (Some k) (Some d) s =
      (Json 403 False ''License revoked: used on multiple devices.'', save (l\<lparr>valid := False\<rparr>) s)"
    using assms by (simp add: validate_part0_def)
  have "licenseKey (l\<lparr>valid := False\<rparr>) = k"
    using assms(1) by (simp add: findOne_Some_key)
  with assms(1) show revoked:
    "findOne k (save (l\<lparr>valid := False\<rparr>) s) = Some (l\<lparr>valid := False\<rparr>)"
    by (rule findOne_save_same)
  then show "validate_part0 now' (Some k) bd' (save (l\<lparr>valid := False\<rparr>) s) =
      (if present bd' \<noteq> None then Json 403 False ''Invalid license''
       else Json 400 False ''Missing fields'', save (l\<lparr>valid := False\<rparr>) s)"
    using \<open>k \<noteq> []\<close> by (intro validate_part0_dead) simp_all
qed

subsection \<open>A request leaves the documents of other keys alone\<close>

lemma validate_other_key:
  assumes "bk \<noteq> Some k"
  shows "findOne k (snd (validate now q bk bd s)) = findOne k s"
proof (cases "present bk")
  case None
  then show ?thesis by (simp add: validate_def)
next
  case (Some k')
  then have k': "k' \<noteq> k" using assms by (auto simp: present_eq_Some)
  show ?thesis
  proof (cases "findOne k' s")
    case None
    with Some show ?thesis by (simp add: validate_def split: option.splits)
  next
    case (Some l)
    then have "licenseKey l = k'" by (rule findOne_Some_key)
    with k' Some \<open>present bk = Some k'\<close> show ?thesis
      by (simp add: validate_def findOne_save_other split: option.splits)
  qed
qed

lemma validate_dead_key:
  assumes "findOne k s = None \<or> (\<exists>l. findOne k s = Some l \<and> \<not> valid l)"
  shows "snd (validate now q (Some k) bd s) = s"
  using assms by (auto simp: validate_def present_eq_Some split: option.splits)

lemma validate_keeps_dead:
  assumes "findOne k s = None \<or> (\<exists>l. findOne k s = Some l \<and> \<not> valid l)"
  shows "findOne k (snd (validate now q bk bd s)) = findOne k s"
proof (cases "bk = Some k")
  case True
  with assms show ?thesis by (simp add: validate_dead_key)
next
  case False
  then show ?thesis by (rule validate_other_key)
qed

lemma validate_traffic_keeps_dead:
  assumes "list_all (\<lambda>r. is_validate (snd r)) rs"
    and "findOne k s = None \<or> (\<exists>l. findOne k s = Some l \<and> \<not> valid l)"
  shows "findOne k (run rs s) = findOne k s"
  using assms
proof (induction rs arbitrary: s)
  case Nil
  then show ?case by simp
next
  case (Cons a rs)
  obtain now r where a: "a = (now, r)" by (cases a)
  with Cons.prems(1) obtain q bk bd where r: "r = Validate q bk bd"
    by (cases r) auto
  have keep: "findOne k (snd (validate now q bk bd s)) = findOne k s"
    using Cons.prems(2) by (rule validate_keeps_dead)
  have "findOne k (run rs (snd (validate now q bk bd s))) = findOne k (snd (validate now q bk bd s))"
    using Cons.prems keep by (intro Cons.IH) auto
  with keep show ?case by (simp add: a r)
qed

lemma handle_other_key:
  assumes "request_key r \<noteq> Some k"
  shows "findOne k (snd (handle now r s)) = findOne k s"
proof (cases r)
  case (Validate q bk bd)
  with assms show ?thesis by (simp add: validate_other_key)
next
  case (Generate bemail bk btype)
  with assms show ?thesis
    by (auto simp: generate_def present_eq_Some findOne_insert_other split: option.splits)
next
  case Summary
  then show ?thesis by (simp add: summary_def)
next
  case (Licenses t)
  then show ?thesis by (simp add: licenses_of_type_def)
next
  case (Delete bk)
  show ?thesis
  proof (cases "present bk")
    case None
    with Delete show ?thesis by (simp add: delete_license_def)
  next
    case (Some k')
    with assms Delete have "k \<noteq> k'" by (auto simp: present_eq_Some)
    with Some Delete show ?thesis
      by (simp add: delete_license_def findOneAndDelete_def findOne_delete_other
          split: option.splits)
  qed
next
  case (Revoke bk)
  show ?thesis
  proof (cases "present bk")
    case None
    with Revoke show ?thesis by (simp add: revoke_def)
  next
    case (Some k')
    with assms Revoke have k': "k \<noteq> k'" by (auto simp: present_eq_Some)
    show ?thesis
    proof (cases "findOne k' s")
      case None
      with Some Revoke show ?thesis by (simp add: revoke_def)
    next
      case (Some l)
      then have "licenseKey l = k'" by (rule findOne_Some_key)
      with k' Some \<open>present bk = Some k'\<close> Revoke show ?thesis
        by (simp add: revoke_def findOne_save_other)
    qed
  qed
next
  case (Reactivate bk resetDevices)
  show ?thesis
  proof (cases "present bk")
    case None
    with Reactivate show ?thesis by (simp add: reactivate_def)
  next
    case (Some k')
    with assms Reactivate have k': "k \<noteq> k'" by (auto simp: present_eq_Some)
    show ?thesis
    proof (cases "findOne k' s")
      case None
      with Some Reactivate show ?thesis by (simp add: reactivate_def)
    next
      case (Some l)
      then have "licenseKey l = k'" by (rule findOne_Some_key)
      with k' Some \<open>present bk = Some k'\<close> Reactivate show ?thesis
        by (simp add: reactivate_def findOne_save_other)
    qed
  qed
qed

subsection \<open>A revoked document stays as it is until it is deleted or reactivated\<close>

lemma handle_revoked_frozen:
  assumes "findOne k s = Some l" and "\<not> valid l" and "\<not> releases k r"
  shows "findOne k (snd (handle now r s)) = Some l"
proof (cases "request_key r = Some k")
  case False
  then show ?thesis using assms(1) by (simp add: handle_other_key)
next
  case True
  show ?thesis
  proof (cases r)
    case (Validate q bk bd)
    with True assms show ?thesis by (simp add: validate_dead_key)
  next
    case (Generate bemail bk btype)
    with True assms show ?thesis
      by (auto simp: generate_def present_eq_Some split: option.splits)
  next
    case (Revoke bk)
    with True assms show ?thesis
      by (auto simp: revoke_def present_eq_Some split: option.splits)
  qed (use True assms in auto)
qed

lemma revoked_frozen:
  assumes "list_all (\<lambda>r. \<not> releases k (snd r)) rs"
    and "findOne k s = Some l" and "\<not> valid l"
  shows "findOne k (run rs s) = Some l"
  using assms
proof (induction rs arbitrary: s)
  case Nil
  then show ?case by simp
next
  case (Cons a rs)
  obtain now r where a: "a = (now, r)" by (cases a)
  with Cons.prems have "findOne k (snd (handle now r s)) = Some l"
    by (intro handle_revoked_frozen) auto
  with Cons.prems Cons.IH show ?case by (simp add: a)
qed

subsection \<open>Two invariants of every request: distinct keys, at most one device\<close>

lemma handle_keeps_distinct:
  assumes "distinct (map licenseKey s)"
  shows "distinct (map licenseKey (snd (handle now r s)))"
proof (cases r)
  case (Validate q bk bd)
  with assms show ?thesis
    by (simp add: validate_def keys_save split: option.splits)
next
  case (Generate bemail bk btype)
  with assms show ?thesis
    by (auto simp: generate_def insert_new_def findOne_None_iff split: option.splits)
next
  case Summary
  with assms show ?thesis by (simp add: summary_def)
next
  case (Licenses t)
  with assms show ?thesis by (simp add: licenses_of_type_def)
next
  case (Delete bk)
  with assms show ?thesis
    by (simp add: delete_license_def findOneAndDelete_def keys_delete_first
        split: option.splits)
next
  case (Revoke bk)
  with assms show ?thesis by (simp add: revoke_def keys_save split: option.splits)
next
  case (Reactivate bk resetDevices)
  with assms show ?thesis by (simp add: reactivate_def keys_save split: option.splits)
qed

lemma capacity_save:
  assumes "\<forall>l\<in>set s. length (deviceId l) \<le> 1" and "length (deviceId d) \<le> 1"
  shows "\<forall>l\<in>set (save d s). length (deviceId l) \<le> 1"
  using assms set_save_subset [of d s] by auto

lemma handle_keeps_capacity:
  assumes "\<forall>l\<in>set s. length (deviceId l) \<le> 1"
  shows "\<forall>l\<in>set (snd (handle now r s)). length (deviceId l) \<le> 1"
proof (cases r)
  case (Validate q bk bd)
  have "\<forall>l\<in>set (snd (validate now q bk bd s)). length (deviceId l) \<le> 1"
  proof (cases "present bk")
    case None
    with assms show ?thesis by (simp add: validate_def)
  next
    case k: (Some k)
    show ?thesis
    proof (cases "present bd")
      case None
      with k assms show ?thesis by (simp add: validate_def)
    next
      case d: (Some d)
      show ?thesis
      proof (cases "findOne k s")
        case None
        with k d assms show ?thesis by (simp add: validate_def)
      next
        case (Some l)
        then have "length (deviceId l) \<le> 1" using assms by (auto dest: findOne_Some_mem)
        then have "\<forall>x\<in>set (save (l\<lparr>valid := False\<rparr>) s). length (deviceId x) \<le> 1"
          and "\<forall>x\<in>set (save (l\<lparr>lastUsed := Some now\<rparr>) s). length (deviceId x) \<le> 1"
          and "\<not> 1 \<le> length (deviceId l) \<Longrightarrow>
            \<forall>x\<in>set (save (l\<lparr>deviceId := deviceId l @ [d], lastUsed := Some now\<rparr>) s).
              length (deviceId x) \<le> 1"
          using assms by (auto dest!: mem_save simp: not_le)
        with k d Some assms show ?thesis by (simp add: validate_def)
      qed
    qed
  qed
  with Validate show ?thesis by simp
next
  case (Generate bemail bk btype)
  with assms show ?thesis
    by (auto simp: generate_def insert_new_def split: option.splits)
next
  case Summary
  with assms show ?thesis by (simp add: summary_def)
next
  case (Licenses t)
  with assms show ?thesis by (simp add: licenses_of_type_def)
next
  case (Delete bk)
  with assms set_delete_first_subset show ?thesis
    by (auto simp: delete_license_def findOneAndDelete_def split: option.splits)
next
  case (Revoke bk)
  have "\<forall>x\<in>set (save (l\<lparr>valid := False\<rparr>) s). length (deviceId x) \<le> 1"
    if "findOne k s = Some l" for k l
    using that assms by (intro capacity_save) (auto dest: findOne_Some_mem)
  with Revoke assms show ?thesis by (simp add: revoke_def split: option.splits)
next
  case (Reactivate bk resetDevices)
  have "\<forall>x\<in>set (save (if resetDevices then l\<lparr>valid := True, deviceId := []\<rparr>
                        else l\<lparr>valid := True\<rparr>) s). length (deviceId x) \<le> 1"
    if "findOne k s = Some l" for k l
    using that assms by (intro capacity_save) (auto dest: findOne_Some_mem)
  with Reactivate assms show ?thesis by (simp add: reactivate_def split: option.splits)
qed

lemma run_keeps_invariants:
  assumes "distinct (map licenseKey s)" and "\<forall>l\<in>set s. length (deviceId l) \<le> 1"
  shows "distinct (map licenseKey (run rs s)) \<and> (\<forall>l\<in>set (run rs s). length (deviceId l) \<le> 1)"
  using assms
proof (induction rs arbitrary: s)
  case Nil
  then show ?case by simp
next
  case (Cons a rs)
  obtain now r where a: "a = (now, r)" by (cases a)
  have "distinct (map licenseKey (snd (handle now r s)))"
    using Cons.prems(1) by (rule handle_keeps_distinct)
  moreover have "\<forall>l\<in>set (snd (handle now r s)). length (deviceId l) \<le> 1"
    using Cons.prems(2) by (rule handle_keeps_capacity)
  ultimately show ?case using Cons.IH by (simp add: a)
qed

lemma bound_devices_step:
  assumes "distinct (map licenseKey s)"
  shows "bound_devices k (snd (handle now r s)) = bound_devices k s
       \<or> bound_devices k (snd (handle now r s)) = []
       \<or> (\<exists>q d. r = Validate q (Some k) (Some d) \<and> bound_devices k s = []
             \<and> bound_devices k (snd (handle now r s)) = [d])"
proof (cases "request_key r = Some k")
  case False
  then show ?thesis by (simp add: bound_devices_def handle_other_key)
next
  case True
  show ?thesis
  proof (cases r)
    case (Validate q bk bd)
    with True have bk: "bk = Some k" by simp
    show ?thesis
    proof (cases "present (Some k)")
      case None
      with Validate bk show ?thesis by (simp add: validate_def)
    next
      case k: (Some k')
      then have k': "k' = k" by (simp add: present_eq_Some)
      show ?thesis
      proof (cases "present bd")
        case None
        with Validate bk k show ?thesis by (simp add: validate_def)
      next
        case d: (Some d)
        then have bd: "bd = Some d" by (simp add: present_eq_Some)
        show ?thesis
        proof (cases "findOne k s")
          case None
          with Validate bk k k' d show ?thesis by (simp add: validate_def)
        next
          case (Some l)
          then have key: "licenseKey l = k" by (rule findOne_Some_key)
          have stored: "findOne k (save l' s) = Some l'" if "licenseKey l' = k" for l'
            using Some that by (rule findOne_save_same)
          have empty: "deviceId l = []" if "\<not> 1 \<le> length (deviceId l)"
            using that by (cases "deviceId l") simp_all
          from Validate bk bd k k' d Some key empty show ?thesis
            by (simp add: validate_def bound_devices_def stored)
        qed
      qed
    qed
  next
    case (Generate bemail bk btype)
    with True show ?thesis
      by (auto simp: generate_def bound_devices_def findOne_insert_new split: option.splits)
  next
    case Summary
    with True show ?thesis by simp
  next
    case (Licenses t)
    with True show ?thesis by simp
  next
    case (Delete bk)
    with True assms show ?thesis
      by (auto simp: delete_license_def findOneAndDelete_def bound_devices_def
          present_eq_Some findOne_delete_distinct split: option.splits)
  next
    case (Revoke bk)
    with True have bk: "bk = Some k" by simp
    have stored: "findOne k (save (l\<lparr>valid := False\<rparr>) s) = Some (l\<lparr>valid := False\<rparr>)"
      if "findOne k s = Some l" for l
      using that by (intro findOne_save_same) (auto dest: findOne_Some_key)
    with Revoke bk show ?thesis
      by (auto simp: revoke_def bound_devices_def present_eq_Some split: option.splits)
  next
    case (Reactivate bk resetDevices)
    with True have bk: "bk = Some k" by simp
    have stored: "findOne k (save (if resetDevices then l\<lparr>valid := True, deviceId := []\<rparr>
                                     else l\<lparr>valid := True\<rparr>) s) =
        Some (if resetDevices then l\<lparr>valid := True, deviceId := []\<rparr> else l\<lparr>valid := True\<rparr>)"
      if "findOne k s = Some l" for l
      using that by (intro findOne_save_same) (auto dest: findOne_Some_key)
    with Reactivate bk show ?thesis
      by (auto simp: reactivate_def bound_devices_def present_eq_Some split: option.splits)
  qed
qed

section \<open>Validation from a second device\<close>

text \<open>
  Claim C1, as amended. The claim says that a validation from a device that is not bound,
  on a valid license that has a bound device, always revokes the license. In
  \<open>src/index.js\<close> the type check stands before the device check: the request revokes only
  when the document's \<open>type\<close> equals the required type, which is \<open>req.query.type\<close>, or
  \<open>"sender"\<close> when the query has none. Then, for a request with a license key and a
  device id (both non-empty), the answer is 403 "License revoked: used on multiple
  devices.", the document is saved with \<open>valid = false\<close>, and every later validation on
  the key is refused with 403 "Invalid license" (400 when it carries no device id) and
  changes nothing, whatever device it names and whatever requests come in between, as
  long as none of them deletes or reactivates the key.
\<close>

theorem validate_second_device_revokes:
  assumes "findOne k s = Some l" and "valid l" and "deviceId l \<noteq> []"
    and "d \<notin> set (deviceId l)" and "k \<noteq> []" and "d \<noteq> []"
    and "type l = Some (required_type q)"
  shows "validate now q (Some k) (Some d) s =
           (Json 403 False ''License revoked: used on multiple devices.'',
            save (l\<lparr>valid := False\<rparr>) s)
       \<and> findOne k (save (l\<lparr>valid := False\<rparr>) s) = Some (l\<lparr>valid := False\<rparr>)
       \<and> (\<forall>rs now' q' bd'. list_all (\<lambda>r. \<not> releases k (snd r)) rs \<longrightarrow>
            validate now' q' (Some k) bd' (run rs (save (l\<lparr>valid := False\<rparr>) s)) =
              (if present bd' \<noteq> None then Json 403 False ''Invalid license''
               else Json 400 False ''Missing fields'',
               run rs (save (l\<lparr>valid := False\<rparr>) s)))"
proof (intro conjI allI impI)
  show "validate now q (Some k) (Some d) s =
           (Json 403 False ''License revoked: used on multiple devices.'',
            save (l\<lparr>valid := False\<rparr>) s)"
    using assms by (simp add: validate_live)
  have key: "licenseKey (l\<lparr>valid := False\<rparr>) = k"
    using assms(1) by (simp add: findOne_Some_key)
  with assms(1) show revoked: "findOne k (save (l\<lparr>valid := False\<rparr>) s) = Some (l\<lparr>valid := False\<rparr>)"
    by (rule findOne_save_same)
  fix rs :: "(int \<times> request) list" and now' q' bd'
  assume "list_all (\<lambda>r. \<not> releases k (snd r)) rs"
  then have "findOne k (run rs (save (l\<lparr>valid := False\<rparr>) s)) = Some (l\<lparr>valid := False\<rparr>)"
    using revoked by (rule revoked_frozen) simp
  then have "findOne k (run rs (save (l\<lparr>valid := False\<rparr>) s)) = None
      \<or> (\<exists>l'. findOne k (run rs (save (l\<lparr>valid := False\<rparr>) s)) = Some l' \<and> \<not> valid l')"
    by simp
  then show "validate now' q' (Some k) bd' (run rs (save (l\<lparr>valid := False\<rparr>) s)) =
              (if present bd' \<noteq> None then Json 403 False ''Invalid license''
               else Json 400 False ''Missing fields'',
               run rs (save (l\<lparr>valid := False\<rparr>) s))"
    using \<open>k \<noteq> []\<close> by (rule validate_dead)
qed

theorem validate_second_device_revokes_witness:
  "validate 5 None (Some ''KEY1'') (Some ''dev2'') [sample_license (Some ''sender'') True [''dev1'']] =
     (Json 403 False ''License revoked: used on multiple devices.'',
      [sample_license (Some ''sender'') False [''dev1'']])
   \<and> validate 9 None (Some ''KEY1'') (Some ''dev1'')
        (run [(6, Validate None (Some ''KEY1'') (Some ''dev1'')),
              (7, Revoke (Some ''KEY1'')),
              (8, Generate (Some ''b@x.com'') (Some ''KEY2'') None)]
           [sample_license (Some ''sender'') False [''dev1'']]) =
     (Json 403 False ''Invalid license'',
      [sample_license (Some ''sender'') False [''dev1''],
       \<lparr>licenseKey = ''KEY2'', type = None, email = ''b@x.com'', valid = True,
        deviceId = [], lastUsed = None\<rparr>])"
proof -
  let ?l = "sample_license (Some ''sender'') True [''dev1'']"
  let ?s = "[?l]"
  let ?rs = "[(6::int, Validate None (Some ''KEY1'') (Some ''dev1'')),
              (7, Revoke (Some ''KEY1'')),
              (8, Generate (Some ''b@x.com'') (Some ''KEY2'') None)]"
  have h1: "findOne ''KEY1'' ?s = Some ?l" by (simp add: findOne_def sample_license_def)
  have h2: "valid ?l" by (simp add: sample_license_def)
  have h3: "deviceId ?l \<noteq> []" by (simp add: sample_license_def)
  have h4: "''dev2'' \<notin> set (deviceId ?l)" by (simp add: sample_license_def)
  have h5: "''KEY1'' \<noteq> []" by simp
  have h6: "''dev2'' \<noteq> []" by simp
  have h7: "type ?l = Some (required_type None)" by (simp add: sample_license_def required_type_def)
  have sv: "save (?l\<lparr>valid := False\<rparr>) ?s = [sample_license (Some ''sender'') False [''dev1'']]"
    by (simp add: sample_license_def)
  have traffic: "list_all (\<lambda>r. \<not> releases ''KEY1'' (snd r)) ?rs" by simp
  have after: "run ?rs [sample_license (Some ''sender'') False [''dev1'']] =
      [sample_license (Some ''sender'') False [''dev1''],
       \<lparr>licenseKey = ''KEY2'', type = None, email = ''b@x.com'', valid = True,
        deviceId = [], lastUsed = None\<rparr>]"
    by (simp add: validate_def revoke_def generate_def findOne_def insert_new_def sample_license_def)
  note inst = validate_second_device_revokes [OF h1 h2 h3 h4 h5 h6 h7, of 5]
  from inst have a: "validate 5 None (Some ''KEY1'') (Some ''dev2'') ?s =
     (Json 403 False ''License revoked: used on multiple devices.'',
      [sample_license (Some ''sender'') False [''dev1'']])"
    by (simp only: sv)
  from inst have "list_all (\<lambda>r. \<not> releases ''KEY1'' (snd r)) ?rs \<longrightarrow>
      validate 9 None (Some ''KEY1'') (Some ''dev1'') (run ?rs (save (?l\<lparr>valid := False\<rparr>) ?s)) =
        (if present (Some ''dev1'') \<noteq> None then Json 403 False ''Invalid license''
         else Json 400 False ''Missing fields'', run ?rs (save (?l\<lparr>valid := False\<rparr>) ?s))"
    by blast
  from this traffic have "validate 9 None (Some ''KEY1'') (Some ''dev1'')
        (run ?rs (save (?l\<lparr>valid := False\<rparr>) ?s)) =
        (if present (Some ''dev1'') \<noteq> None then Json 403 False ''Invalid license''
         else Json 400 False ''Missing fields'', run ?rs (save (?l\<lparr>valid := False\<rparr>) ?s))"
    by (rule mp)
  then have b: "validate 9 None (Some ''KEY1'') (Some ''dev1'')
        (run ?rs [sample_license (Some ''sender'') False [''dev1'']]) =
     (Json 403 False ''Invalid license'',
      [sample_license (Some ''sender'') False [''dev1''],
       \<lparr>licenseKey = ''KEY2'', type = None, email = ''b@x.com'', valid = True,
        deviceId = [], lastUsed = None\<rparr>])"
    unfolding sv after by simp
  from a b show ?thesis by blast
qed

text \<open>
  The claim as written fails on a valid license of type \<open>receiver\<close> bound to \<open>dev1\<close>: a
  validation from \<open>dev2\<close> with no \<open>type\<close> in the query is answered 403 "License type
  mismatch", and the license stays valid.
\<close>

theorem validate_second_device_counterexample:
  "findOne ''KEY1'' [sample_license (Some ''receiver'') True [''dev1'']] =
     Some (sample_license (Some ''receiver'') True [''dev1''])
   \<and> valid (sample_license (Some ''receiver'') True [''dev1''])
   \<and> deviceId (sample_license (Some ''receiver'') True [''dev1'']) = [''dev1'']
   \<and> validate 5 None (Some ''KEY1'') (Some ''dev2'') [sample_license (Some ''receiver'') True [''dev1'']] =
       (Json 403 False ''License type mismatch'', [sample_license (Some ''receiver'') True [''dev1'']])"
  by (simp add: validate_def findOne_def sample_license_def required_type_def)

section \<open>Validating an unknown or a revoked key\<close>

text \<open>
  Claim C2. When the key of a \<open>POST /validate\<close> request has no document, or its document
  has \<open>valid = false\<close>, the request fails and the store is left as it was: the answer is
  403 "Invalid license" when both body fields are present and 400 "Missing fields"
  otherwise, in \<open>src/index.js\<close> and in \<open>src/unnamed/part_000\<close> alike. No sequence of
  validation requests, on any keys, creates a document for the key or changes its revoked
  document, so validation traffic never sets a revoked license back to valid.
\<close>

theorem validate_unknown_or_revoked:
  assumes "findOne k s = None \<or> (\<exists>l. findOne k s = Some l \<and> \<not> valid l)"
  shows "validate now q (Some k) bd s =
           (if k \<noteq> [] \<and> present bd \<noteq> None then Json 403 False ''Invalid license''
            else Json 400 False ''Missing fields'', s)
       \<and> validate_part0 now (Some k) bd s =
           (if k \<noteq> [] \<and> present bd \<noteq> None then Json 403 False ''Invalid license''
            else Json 400 False ''Missing fields'', s)
       \<and> (\<forall>rs. list_all (\<lambda>r. is_validate (snd r)) rs \<longrightarrow> findOne k (run rs s) = findOne k s)"
proof (intro conjI allI impI)
  show "validate now q (Some k) bd s =
           (if k \<noteq> [] \<and> present bd \<noteq> None then Json 403 False ''Invalid license''
            else Json 400 False ''Missing fields'', s)"
    using assms by (auto simp: validate_def present_eq_Some present_eq_None split: option.splits)
  show "validate_part0 now (Some k) bd s =
           (if k \<noteq> [] \<and> present bd \<noteq> None then Json 403 False ''Invalid license''
            else Json 400 False ''Missing fields'', s)"
    using assms
    by (auto simp: validate_part0_def present_eq_Some present_eq_None split: option.splits)
next
  fix rs :: "(int \<times> request) list"
  assume "list_all (\<lambda>r. is_validate (snd r)) rs"
  then show "findOne k (run rs s) = findOne k s"
    using assms by (rule validate_traffic_keeps_dead)
qed

theorem validate_unknown_or_revoked_witness:
  "validate 5 None (Some ''KEY1'') (Some ''dev1'') [sample_license (Some ''sender'') False [''dev1'']] =
     (Json 403 False ''Invalid license'', [sample_license (Some ''sender'') False [''dev1'']])
   \<and> validate_part0 5 (Some ''KEY1'') (Some ''dev1'') [sample_license (Some ''sender'') False [''dev1'']] =
     (Json 403 False ''Invalid license'', [sample_license (Some ''sender'') False [''dev1'']])
   \<and> findOne ''KEY1''
        (run [(6, Validate None (Some ''KEY1'') (Some ''dev1'')),
              (7, Validate (Some ''sender'') (Some ''KEY1'') (Some ''dev2''))]
           [sample_license (Some ''sender'') False [''dev1'']]) =
       Some (sample_license (Some ''sender'') False [''dev1''])"
proof -
  let ?s = "[sample_license (Some ''sender'') False [''dev1'']]"
  let ?rs = "[(6::int, Validate None (Some ''KEY1'') (Some ''dev1'')),
              (7, Validate (Some ''sender'') (Some ''KEY1'') (Some ''dev2''))]"
  have found: "findOne ''KEY1'' ?s = Some (sample_license (Some ''sender'') False [''dev1''])"
    by (simp add: findOne_def sample_license_def)
  have h: "findOne ''KEY1'' ?s = None \<or> (\<exists>l. findOne ''KEY1'' ?s = Some l \<and> \<not> valid l)"
    by (simp add: findOne_def sample_license_def)
  have traffic: "list_all (\<lambda>r. is_validate (snd r)) ?rs" by simp
  note inst = validate_unknown_or_revoked [OF h, of 5 None "Some ''dev1''"]
  from inst have a: "validate 5 None (Some ''KEY1'') (Some ''dev1'') ?s =
     (Json 403 False ''Invalid license'', ?s)" by simp
  from inst have b: "validate_part0 5 (Some ''KEY1'') (Some ''dev1'') ?s =
     (Json 403 False ''Invalid license'', ?s)" by simp
  from inst have "list_all (\<lambda>r. is_validate (snd r)) ?rs \<longrightarrow> findOne ''KEY1'' (run ?rs ?s) = findOne ''KEY1'' ?s"
    by blast
  with traffic found have c: "findOne ''KEY1'' (run ?rs ?s) = Some (sample_license (Some ''sender'') False [''dev1''])"
    by simp
  from a b c show ?thesis by blast
qed

section \<open>At most one bound device\<close>

text \<open>
  Claim C3. Start from the empty collection and apply any requests one after the other.
  In the store reached, every document with \<open>valid = true\<close> has at most one entry in
  \<open>deviceId\<close>. One more request changes the devices bound to a key in one of three ways
  only: it leaves them as they are, it leaves none (a reactivation that resets the
  devices, a deletion), or it is a validation for that key that finds no device bound and
  binds its own. So a validation appends a device only to an empty list, and no other
  request adds a device.
\<close>

theorem bound_devices_at_most_one:
  "(\<forall>l\<in>set (run rs []). valid l \<longrightarrow> length (deviceId l) \<le> 1)
   \<and> (\<forall>k. bound_devices k (snd (handle now r (run rs []))) = bound_devices k (run rs [])
         \<or> bound_devices k (snd (handle now r (run rs []))) = []
         \<or> (\<exists>q d. r = Validate q (Some k) (Some d) \<and> bound_devices k (run rs []) = []
               \<and> bound_devices k (snd (handle now r (run rs []))) = [d]))"
proof -
  have inv: "distinct (map licenseKey (run rs [])) \<and> (\<forall>l\<in>set (run rs []). length (deviceId l) \<le> 1)"
    by (rule run_keeps_invariants) simp_all
  then have "\<forall>l\<in>set (run rs []). valid l \<longrightarrow> length (deviceId l) \<le> 1" by blast
  moreover from inv have "bound_devices k (snd (handle now r (run rs []))) = bound_devices k (run rs [])
         \<or> bound_devices k (snd (handle now r (run rs []))) = []
         \<or> (\<exists>q d. r = Validate q (Some k) (Some d) \<and> bound_devices k (run rs []) = []
               \<and> bound_devices k (snd (handle now r (run rs []))) = [d])" for k
    by (intro bound_devices_step) blast
  ultimately show ?thesis by blast
qed

theorem bound_devices_at_most_one_witness:
  "run [(1, Generate (Some ''a@x.com'') (Some ''KEY1'') (Some ''sender'')),
        (2, Validate None (Some ''KEY1'') (Some ''dev1''))] [] =
     [(sample_license (Some ''sender'') True [''dev1''])\<lparr>lastUsed := Some 2\<rparr>]
   \<and> valid ((sample_license (Some ''sender'') True [''dev1''])\<lparr>lastUsed := Some 2\<rparr>)
   \<and> length (deviceId ((sample_license (Some ''sender'') True [''dev1''])\<lparr>lastUsed := Some 2\<rparr>)) \<le> 1
   \<and> bound_devices ''KEY1''
        (run [(1, Generate (Some ''a@x.com'') (Some ''KEY1'') (Some ''sender''))] []) = []
   \<and> bound_devices ''KEY1''
        (snd (handle 2 (Validate None (Some ''KEY1'') (Some ''dev1''))
           (run [(1, Generate (Some ''a@x.com'') (Some ''KEY1'') (Some ''sender''))] []))) = [''dev1'']
   \<and> bound_devices ''KEY1''
        (snd (handle 3 (Validate None (Some ''KEY1'') (Some ''dev2''))
           (run [(1, Generate (Some ''a@x.com'') (Some ''KEY1'') (Some ''sender'')),
                 (2, Validate None (Some ''KEY1'') (Some ''dev1''))] []))) = [''dev1'']"
proof -
  let ?rs1 = "[(1::int, Generate (Some ''a@x.com'') (Some ''KEY1'') (Some ''sender''))]"
  let ?rs2 = "[(1::int, Generate (Some ''a@x.com'') (Some ''KEY1'') (Some ''sender'')),
        (2, Validate None (Some ''KEY1'') (Some ''dev1''))]"
  let ?l = "(sample_license (Some ''sender'') True [''dev1''])\<lparr>lastUsed := Some 2\<rparr>"
  have r1: "run ?rs1 [] = [sample_license (Some ''sender'') True []]"
    by (simp add: generate_def findOne_def insert_new_def sample_license_def)
  have r2: "run ?rs2 [] = [?l]"
    by (simp add: generate_def validate_def findOne_def insert_new_def sample_license_def
        required_type_def)
  have v: "valid ?l" by (simp add: sample_license_def)
  have b1: "bound_devices ''KEY1'' (run ?rs1 []) = []"
    unfolding r1 by (simp add: bound_devices_def findOne_def sample_license_def)
  have b2: "bound_devices ''KEY1'' (run ?rs2 []) = [''dev1'']"
    unfolding r2 by (simp add: bound_devices_def findOne_def sample_license_def)
  have "?l \<in> set (run ?rs2 [])" unfolding r2 by simp
  with bound_devices_at_most_one [of ?rs2] v have c: "length (deviceId ?l) \<le> 1" by blast
  have "bound_devices ''KEY1'' (snd (handle 2 (Validate None (Some ''KEY1'') (Some ''dev1'')) (run ?rs1 [])))
      = bound_devices ''KEY1'' (run ?rs2 [])"
    by simp
  then have d: "bound_devices ''KEY1''
      (snd (handle 2 (Validate None (Some ''KEY1'') (Some ''dev1'')) (run ?rs1 []))) = [''dev1'']"
    by (simp only: b2)
  have "\<not> (\<exists>q d. Validate None (Some ''KEY1'') (Some ''dev2'') = Validate q (Some ''KEY1'') (Some d)
      \<and> bound_devices ''KEY1'' (run ?rs2 []) = [])"
    unfolding b2 by simp
  with bound_devices_at_most_one [of ?rs2 3 "Validate None (Some ''KEY1'') (Some ''dev2'')"]
  have "bound_devices ''KEY1'' (snd (handle 3 (Validate None (Some ''KEY1'') (Some ''dev2'')) (run ?rs2 [])))
        = bound_devices ''KEY1'' (run ?rs2 [])
      \<or> bound_devices ''KEY1'' (snd (handle 3 (Validate None (Some ''KEY1'') (Some ''dev2'')) (run ?rs2 [])))
        = []"
    by blast
  moreover have "bound_devices ''KEY1''
      (snd (handle 3 (Validate None (Some ''KEY1'') (Some ''dev2'')) (run ?rs2 []))) \<noteq> []"
    unfolding r2
    by (simp add: validate_def findOne_def sample_license_def required_type_def bound_devices_def)
  ultimately have e: "bound_devices ''KEY1''
      (snd (handle 3 (Validate None (Some ''KEY1'') (Some ''dev2'')) (run ?rs2 []))) = [''dev1'']"
    using b2 by simp
  from r2 v c b1 d e show ?thesis by blast
qed

section \<open>The type check\<close>

text \<open>
  Claim C4, as amended. The claim says that the type check is skipped when the request
  supplies no type. \<open>src/index.js\<close> never skips it: the required type is
  \<open>req.query.type\<close>, or \<open>"sender"\<close> when the query has none (or an empty one). The answer
  is 403 "License type mismatch" exactly when the request carries a license key and a
  device id, the key has a valid document, and the document's \<open>type\<close> is not the required
  type; the store is then left as it was. A document with no \<open>type\<close> fails the check on
  every request.
\<close>

theorem validate_type_mismatch_iff:
  "(fst (validate now q bk bd s) = Json 403 False ''License type mismatch'') =
     (\<exists>k d l. present bk = Some k \<and> present bd = Some d \<and> findOne k s = Some l \<and> valid l
        \<and> type l \<noteq> Some (required_type q))
   \<and> (fst (validate now q bk bd s) = Json 403 False ''License type mismatch'') =
     (validate now q bk bd s = (Json 403 False ''License type mismatch'', s))
   \<and> required_type q = (case q of None \<Rightarrow> ''sender'' | Some t \<Rightarrow> if t = [] then ''sender'' else t)"
proof (intro conjI)
  show "(fst (validate now q bk bd s) = Json 403 False ''License type mismatch'') =
     (\<exists>k d l. present bk = Some k \<and> present bd = Some d \<and> findOne k s = Some l \<and> valid l
        \<and> type l \<noteq> Some (required_type q))"
    by (auto simp: validate_def split: option.splits)
  show "(fst (validate now q bk bd s) = Json 403 False ''License type mismatch'') =
     (validate now q bk bd s = (Json 403 False ''License type mismatch'', s))"
    by (auto simp: validate_def split: option.splits)
  show "required_type q = (case q of None \<Rightarrow> ''sender'' | Some t \<Rightarrow> if t = [] then ''sender'' else t)"
    by (cases q rule: present.cases) (simp_all add: required_type_def)
qed

theorem validate_type_mismatch_iff_witness:
  "validate 5 (Some ''sender'') (Some ''KEY1'') (Some ''dev1'') [sample_license (Some ''receiver'') True []] =
     (Json 403 False ''License type mismatch'', [sample_license (Some ''receiver'') True []])"
proof -
  let ?l = "sample_license (Some ''receiver'') True []"
  have "\<exists>k d l. present (Some ''KEY1'') = Some k \<and> present (Some ''dev1'') = Some d
      \<and> findOne k [?l] = Some l \<and> valid l \<and> type l \<noteq> Some (required_type (Some ''sender''))"
    by (simp add: findOne_def sample_license_def required_type_def)
  with validate_type_mismatch_iff [of 5 "Some ''sender''" "Some ''KEY1''" "Some ''dev1''" "[?l]"]
  show ?thesis by blast
qed

text \<open>
  The claim as written fails on the license that \<open>POST /generate\<close> creates when the body
  has no \<open>type\<close>, and on a license of type \<open>receiver\<close>: a validation with no \<open>type\<close> in
  the query is answered 403 "License type mismatch" in both cases.
\<close>

theorem validate_type_mismatch_counterexample:
  "generate (Some ''a@x.com'') (Some ''KEY1'') None [] =
     (Json 200 True ''License created'', [sample_license None True []])
   \<and> validate 5 None (Some ''KEY1'') (Some ''dev1'') [sample_license None True []] =
     (Json 403 False ''License type mismatch'', [sample_license None True []])
   \<and> validate 5 None (Some ''KEY1'') (Some ''dev1'') [sample_license (Some ''receiver'') True []] =
     (Json 403 False ''License type mismatch'', [sample_license (Some ''receiver'') True []])"
  by (simp add: validate_def generate_def insert_new_def findOne_def sample_license_def
      required_type_def)

section \<open>Reactivation\<close>

text \<open>
  Claim C5, as amended. For a request with a license key: \<open>POST /licenses/reactivate\<close>
  answers 404 "License not found" and changes nothing when the key has no document;
  otherwise it succeeds, whether the document was valid or not, and saves it with
  \<open>valid = true\<close>, and with \<open>deviceId = []\<close> when \<open>resetDevices\<close> is set. After a
  reactivation that resets the devices, a validation from any device succeeds and binds
  that device, provided the document's \<open>type\<close> is the required type of the validation
  (\<open>req.query.type\<close>, or \<open>"sender"\<close>); the claim leaves this condition out.
\<close>

theorem reactivate_outcomes:
  assumes "k \<noteq> []"
  shows "(findOne k s = None \<longrightarrow>
            reactivate (Some k) c s = (Json 404 False ''License not found'', s))
       \<and> (\<forall>l. findOne k s = Some l \<longrightarrow>
            reactivate (Some k) c s =
              (Json 200 True ''License reactivated successfully'',
               save (if c then l\<lparr>valid := True, deviceId := []\<rparr> else l\<lparr>valid := True\<rparr>) s)
          \<and> findOne k (snd (reactivate (Some k) c s)) =
              Some (if c then l\<lparr>valid := True, deviceId := []\<rparr> else l\<lparr>valid := True\<rparr>)
          \<and> (\<forall>now q d. d \<noteq> [] \<and> type l = Some (required_type q) \<longrightarrow>
                fst (validate now q (Some k) (Some d) (snd (reactivate (Some k) True s))) =
                  Json 200 True ''License validated successfully''
              \<and> findOne k (snd (validate now q (Some k) (Some d) (snd (reactivate (Some k) True s)))) =
                  Some (l\<lparr>valid := True, deviceId := [d], lastUsed := Some now\<rparr>)))"
proof (intro conjI allI impI)
  have pk: "present (Some k) = Some k" using assms by (simp add: present_eq_Some)
  show "reactivate (Some k) c s = (Json 404 False ''License not found'', s)"
    if "findOne k s = None"
    using that pk by (simp add: reactivate_def)
  fix l
  assume found: "findOne k s = Some l"
  then have key: "licenseKey l = k" by (rule findOne_Some_key)
  show react: "reactivate (Some k) c s =
      (Json 200 True ''License reactivated successfully'',
       save (if c then l\<lparr>valid := True, deviceId := []\<rparr> else l\<lparr>valid := True\<rparr>) s)" for c
    using found pk by (simp add: reactivate_def)
  have "licenseKey (if c then l\<lparr>valid := True, deviceId := []\<rparr> else l\<lparr>valid := True\<rparr>) = k" for c
    using key by simp
  with found have stored:
    "findOne k (save (if c then l\<lparr>valid := True, deviceId := []\<rparr> else l\<lparr>valid := True\<rparr>) s) =
       Some (if c then l\<lparr>valid := True, deviceId := []\<rparr> else l\<lparr>valid := True\<rparr>)" for c
    by (rule findOne_save_same)
  then show "findOne k (snd (reactivate (Some k) c s)) =
      Some (if c then l\<lparr>valid := True, deviceId := []\<rparr> else l\<lparr>valid := True\<rparr>)"
    by (simp add: react)
  fix now q and d :: string
  assume new: "d \<noteq> [] \<and> type l = Some (required_type q)"
  let ?s' = "save (l\<lparr>valid := True, deviceId := []\<rparr>) s"
  let ?l' = "l\<lparr>valid := True, deviceId := []\<rparr>"
  have s': "snd (reactivate (Some k) True s) = ?s'" by (simp add: react)
  have found': "findOne k ?s' = Some ?l'" using stored [of True] by simp
  have v: "validate now q (Some k) (Some d) ?s' =
      (Json 200 True ''License validated successfully'',
       save (l\<lparr>valid := True, deviceId := [d], lastUsed := Some now\<rparr>) ?s')"
    using found' assms new by (simp add: validate_live)
  then show "fst (validate now q (Some k) (Some d) (snd (reactivate (Some k) True s))) =
      Json 200 True ''License validated successfully''"
    by (simp add: s')
  have "licenseKey (l\<lparr>valid := True, deviceId := [d], lastUsed := Some now\<rparr>) = k"
    using key by simp
  with found' have
    "findOne k (save (l\<lparr>valid := True, deviceId := [d], lastUsed := Some now\<rparr>) ?s') =
       Some (l\<lparr>valid := True, deviceId := [d], lastUsed := Some now\<rparr>)"
    by (rule findOne_save_same)
  then show "findOne k (snd (validate now q (Some k) (Some d) (snd (reactivate (Some k) True s)))) =
      Some (l\<lparr>valid := True, deviceId := [d], lastUsed := Some now\<rparr>)"
    by (simp add: s' v)
qed

theorem reactivate_outcomes_witness:
  "reactivate (Some ''KEY1'') True [sample_license (Some ''sender'') False [''dev1'']] =
     (Json 200 True ''License reactivated successfully'', [sample_license (Some ''sender'') True []])
   \<and> fst (validate 9 None (Some ''KEY1'') (Some ''dev2'')
        (snd (reactivate (Some ''KEY1'') True [sample_license (Some ''sender'') False [''dev1'']]))) =
     Json 200 True ''License validated successfully''
   \<and> reactivate (Some ''KEY2'') True [sample_license (Some ''sender'') False [''dev1'']] =
     (Json 404 False ''License not found'', [sample_license (Some ''sender'') False [''dev1'']])"
proof -
  let ?l = "sample_license (Some ''sender'') False [''dev1'']"
  have k1: "''KEY1'' \<noteq> []" and k2: "''KEY2'' \<noteq> []" by simp_all
  have found: "findOne ''KEY1'' [?l] = Some ?l" by (simp add: findOne_def sample_license_def)
  have absent: "findOne ''KEY2'' [?l] = None" by (simp add: findOne_def sample_license_def)
  have sv: "save (if True then ?l\<lparr>valid := True, deviceId := []\<rparr> else ?l\<lparr>valid := True\<rparr>) [?l] =
      [sample_license (Some ''sender'') True []]"
    by (simp add: sample_license_def)
  have ty: "''dev2'' \<noteq> [] \<and> type ?l = Some (required_type None)"
    by (simp add: sample_license_def required_type_def)
  note on1 = reactivate_outcomes [OF k1, of "[?l]" True]
  note on2 = reactivate_outcomes [OF k2, of "[?l]" True]
  from on1 found have a: "reactivate (Some ''KEY1'') True [?l] =
      (Json 200 True ''License reactivated successfully'', [sample_license (Some ''sender'') True []])"
    unfolding sv [symmetric] by blast
  from on1 found ty have b: "fst (validate 9 None (Some ''KEY1'') (Some ''dev2'')
        (snd (reactivate (Some ''KEY1'') True [?l]))) = Json 200 True ''License validated successfully''"
    by blast
  from on2 absent have c: "reactivate (Some ''KEY2'') True [?l] =
      (Json 404 False ''License not found'', [?l])"
    by blast
  from a b c show ?thesis by blast
qed

text \<open>
  The claim as written fails on a revoked license of type \<open>receiver\<close> bound to \<open>dev1\<close>:
  the reactivation with \<open>resetDevices\<close> succeeds and empties the devices, and the
  validation that follows from \<open>dev2\<close>, with no \<open>type\<close> in the query, is answered 403
  "License type mismatch".
\<close>

theorem reactivate_outcomes_counterexample:
  "reactivate (Some ''KEY1'') True [sample_license (Some ''receiver'') False [''dev1'']] =
     (Json 200 True ''License reactivated successfully'', [sample_license (Some ''receiver'') True []])
   \<and> validate 9 None (Some ''KEY1'') (Some ''dev2'') [sample_license (Some ''receiver'') True []] =
     (Json 403 False ''License type mismatch'', [sample_license (Some ''receiver'') True []])"
  by (simp add: reactivate_def validate_def findOne_def sample_license_def required_type_def)

section \<open>Validation from the bound device\<close>

text \<open>
  Claim C6, as amended. For a request with a license key and a device id, on a valid
  document whose \<open>deviceId\<close> contains the device and whose \<open>type\<close> is the required type
  (\<open>req.query.type\<close>, or \<open>"sender"\<close>): the validation succeeds and saves the document with
  \<open>lastUsed\<close> set to the current time and every other field, \<open>deviceId\<close> and \<open>valid\<close>
  among them, as it was. The claim leaves the condition on the type out.
\<close>

theorem validate_bound_device_succeeds:
  assumes "findOne k s = Some l" and "valid l" and "d \<in> set (deviceId l)"
    and "k \<noteq> []" and "d \<noteq> []" and "type l = Some (required_type q)"
  shows "validate now q (Some k) (Some d) s =
           (Json 200 True ''License validated successfully'', save (l\<lparr>lastUsed := Some now\<rparr>) s)
       \<and> findOne k (save (l\<lparr>lastUsed := Some now\<rparr>) s) = Some (l\<lparr>lastUsed := Some now\<rparr>)
       \<and> bound_devices k (save (l\<lparr>lastUsed := Some now\<rparr>) s) = deviceId l"
proof -
  have first: "validate now q (Some k) (Some d) s =
      (Json 200 True ''License validated successfully'', save (l\<lparr>lastUsed := Some now\<rparr>) s)"
    using assms by (simp add: validate_live)
  have "licenseKey (l\<lparr>lastUsed := Some now\<rparr>) = k"
    using assms(1) by (simp add: findOne_Some_key)
  with assms(1) have second:
    "findOne k (save (l\<lparr>lastUsed := Some now\<rparr>) s) = Some (l\<lparr>lastUsed := Some now\<rparr>)"
    by (rule findOne_save_same)
  then have "bound_devices k (save (l\<lparr>lastUsed := Some now\<rparr>) s) = deviceId l"
    by (simp add: bound_devices_def)
  with first second show ?thesis by blast
qed

theorem validate_bound_device_succeeds_witness:
  "validate 7 None (Some ''KEY1'') (Some ''dev1'') [sample_license (Some ''sender'') True [''dev1'']] =
     (Json 200 True ''License validated successfully'',
      [(sample_license (Some ''sender'') True [''dev1''])\<lparr>lastUsed := Some 7\<rparr>])
   \<and> bound_devices ''KEY1'' [(sample_license (Some ''sender'') True [''dev1''])\<lparr>lastUsed := Some 7\<rparr>] =
       [''dev1'']"
proof -
  let ?l = "sample_license (Some ''sender'') True [''dev1'']"
  have h1: "findOne ''KEY1'' [?l] = Some ?l" by (simp add: findOne_def sample_license_def)
  have h2: "valid ?l" by (simp add: sample_license_def)
  have h3: "''dev1'' \<in> set (deviceId ?l)" by (simp add: sample_license_def)
  have h4: "''KEY1'' \<noteq> []" and h5: "''dev1'' \<noteq> []" by simp_all
  have h6: "type ?l = Some (required_type None)"
    by (simp add: sample_license_def required_type_def)
  have sv: "save (?l\<lparr>lastUsed := Some 7\<rparr>) [?l] = [?l\<lparr>lastUsed := Some 7\<rparr>]"
    by (simp add: sample_license_def)
  have dv: "deviceId ?l = [''dev1'']" by (simp add: sample_license_def)
  from validate_bound_device_succeeds [OF h1 h2 h3 h4 h5 h6, of 7]
  show ?thesis unfolding sv dv by blast
qed

text \<open>
  The claim as written fails on a valid license of type \<open>receiver\<close> bound to \<open>dev1\<close>: a
  validation from \<open>dev1\<close> with no \<open>type\<close> in the query is answered 403 "License type
  mismatch", and \<open>lastUsed\<close> is not set.
\<close>

theorem validate_bound_device_counterexample:
  "findOne ''KEY1'' [sample_license (Some ''receiver'') True [''dev1'']] =
     Some (sample_license (Some ''receiver'') True [''dev1''])
   \<and> valid (sample_license (Some ''receiver'') True [''dev1''])
   \<and> ''dev1'' \<in> set (deviceId (sample_license (Some ''receiver'') True [''dev1'']))
   \<and> validate 7 None (Some ''KEY1'') (Some ''dev1'') [sample_license (Some ''receiver'') True [''dev1'']] =
       (Json 403 False ''License type mismatch'', [sample_license (Some ''receiver'') True [''dev1'']])"
  by (simp add: validate_def findOne_def sample_license_def required_type_def)

section \<open>Revocation\<close>

text \<open>
  Claim C7. For a request with a license key, \<open>POST /licenses/revoke\<close> answers 404
  "License not found" when the key has no document and 400 "License is already revoked"
  when its document has \<open>valid = false\<close>, and changes nothing in both cases. On a valid
  document it succeeds and saves the document with \<open>valid = false\<close>; the same request
  again is then answered 400 "License is already revoked" and leaves the document
  revoked.
\<close>

theorem revoke_outcomes:
  assumes "k \<noteq> []"
  shows "(findOne k s = None \<longrightarrow> revoke (Some k) s = (Json 404 False ''License not found'', s))
       \<and> (\<forall>l. findOne k s = Some l \<and> \<not> valid l \<longrightarrow>
            revoke (Some k) s = (Json 400 False ''License is already revoked'', s))
       \<and> (\<forall>l. findOne k s = Some l \<and> valid l \<longrightarrow>
            revoke (Some k) s =
              (Json 200 True ''License revoked successfully'', save (l\<lparr>valid := False\<rparr>) s)
          \<and> findOne k (save (l\<lparr>valid := False\<rparr>) s) = Some (l\<lparr>valid := False\<rparr>)
          \<and> revoke (Some k) (save (l\<lparr>valid := False\<rparr>) s) =
              (Json 400 False ''License is already revoked'', save (l\<lparr>valid := False\<rparr>) s))"
proof (intro conjI allI impI)
  have pk: "present (Some k) = Some k" using assms by (simp add: present_eq_Some)
  show "revoke (Some k) s = (Json 404 False ''License not found'', s)" if "findOne k s = None"
    using that pk by (simp add: revoke_def)
  show "revoke (Some k) s = (Json 400 False ''License is already revoked'', s)"
    if "findOne k s = Some l \<and> \<not> valid l" for l
    using that pk by (simp add: revoke_def)
  fix l
  assume live: "findOne k s = Some l \<and> valid l"
  then show "revoke (Some k) s =
      (Json 200 True ''License revoked successfully'', save (l\<lparr>valid := False\<rparr>) s)"
    using pk by (simp add: revoke_def)
  from live have "licenseKey (l\<lparr>valid := False\<rparr>) = k" by (auto dest: findOne_Some_key)
  with live show stored: "findOne k (save (l\<lparr>valid := False\<rparr>) s) = Some (l\<lparr>valid := False\<rparr>)"
    by (intro findOne_save_same) auto
  then show "revoke (Some k) (save (l\<lparr>valid := False\<rparr>) s) =
      (Json 400 False ''License is already revoked'', save (l\<lparr>valid := False\<rparr>) s)"
    using pk by (simp add: revoke_def)
qed

theorem revoke_outcomes_witness:
  "revoke (Some ''KEY1'') [sample_license None True []] =
     (Json 200 True ''License revoked successfully'', [sample_license None False []])
   \<and> revoke (Some ''KEY1'') [sample_license None False []] =
     (Json 400 False ''License is already revoked'', [sample_license None False []])
   \<and> revoke (Some ''KEY2'') [sample_license None True []] =
     (Json 404 False ''License not found'', [sample_license None True []])"
proof -
  let ?l = "sample_license None True []"
  have k1: "''KEY1'' \<noteq> []" and k2: "''KEY2'' \<noteq> []" by simp_all
  have live: "findOne ''KEY1'' [?l] = Some ?l \<and> valid ?l"
    by (simp add: findOne_def sample_license_def)
  have absent: "findOne ''KEY2'' [?l] = None" by (simp add: findOne_def sample_license_def)
  have sv: "save (?l\<lparr>valid := False\<rparr>) [?l] = [sample_license None False []]"
    by (simp add: sample_license_def)
  note on1 = revoke_outcomes [OF k1, of "[?l]"]
  note on2 = revoke_outcomes [OF k2, of "[?l]"]
  from on1 live have a: "revoke (Some ''KEY1'') [?l] =
      (Json 200 True ''License revoked successfully'', [sample_license None False []])"
    unfolding sv [symmetric] by blast
  from on1 live have b: "revoke (Some ''KEY1'') [sample_license None False []] =
      (Json 400 False ''License is already revoked'', [sample_license None False []])"
    unfolding sv [symmetric] by blast
  from on2 absent have c: "revoke (Some ''KEY2'') [?l] = (Json 404 False ''License not found'', [?l])"
    by blast
  from a b c show ?thesis by blast
qed

section \<open>Issuance\<close>

text \<open>
  Claim C8. \<open>POST /generate\<close> answers 400 "Missing fields" when the email or the license
  key is missing, and 409 "License already exists" when both are present and the key has
  a document; the store is left as it was in both cases, so the existing document keeps
  every field. Otherwise it succeeds and adds one document with the key, the email and
  the type of the body, \<open>valid = true\<close>, no device and no \<open>lastUsed\<close>.
\<close>

theorem generate_outcomes:
  "(present bemail = None \<or> present bk = None \<longrightarrow>
      generate bemail bk btype s = (Json 400 False ''Missing fields'', s))
   \<and> (\<forall>e k. present bemail = Some e \<and> present bk = Some k \<longrightarrow>
        (\<forall>l. findOne k s = Some l \<longrightarrow>
           generate bemail bk btype s = (Json 409 False ''License already exists'', s))
      \<and> (findOne k s = None \<longrightarrow>
           generate bemail bk btype s =
             (Json 200 True ''License created'',
              s @ [\<lparr>licenseKey = k, type = btype, email = e, valid = True,
                    deviceId = [], lastUsed = None\<rparr>])
         \<and> findOne k (snd (generate bemail bk btype s)) =
             Some \<lparr>licenseKey = k, type = btype, email = e, valid = True,
                   deviceId = [], lastUsed = None\<rparr>))"
proof (intro conjI allI impI)
  show "generate bemail bk btype s = (Json 400 False ''Missing fields'', s)"
    if "present bemail = None \<or> present bk = None"
    using that by (auto simp: generate_def split: option.splits)
  fix e k
  assume both: "present bemail = Some e \<and> present bk = Some k"
  show "generate bemail bk btype s = (Json 409 False ''License already exists'', s)"
    if "findOne k s = Some l" for l
    using that both by (simp add: generate_def)
  assume fresh: "findOne k s = None"
  with both show created: "generate bemail bk btype s =
      (Json 200 True ''License created'',
       s @ [\<lparr>licenseKey = k, type = btype, email = e, valid = True,
             deviceId = [], lastUsed = None\<rparr>])"
    by (simp add: generate_def insert_new_def)
  from fresh show "findOne k (snd (generate bemail bk btype s)) =
      Some \<lparr>licenseKey = k, type = btype, email = e, valid = True,
            deviceId = [], lastUsed = None\<rparr>"
    using findOne_insert_new [of k _ s] by (simp add: created insert_new_def)
qed

theorem generate_outcomes_witness:
  "generate (Some ''a@x.com'') (Some ''KEY1'') (Some ''sender'') [] =
     (Json 200 True ''License created'', [sample_license (Some ''sender'') True []])
   \<and> generate (Some ''b@x.com'') (Some ''KEY1'') None [sample_license (Some ''sender'') True []] =
     (Json 409 False ''License already exists'', [sample_license (Some ''sender'') True []])
   \<and> generate None (Some ''KEY1'') None [sample_license (Some ''sender'') True []] =
     (Json 400 False ''Missing fields'', [sample_license (Some ''sender'') True []])"
proof -
  let ?l = "sample_license (Some ''sender'') True []"
  have p: "present (Some ''a@x.com'') = Some ''a@x.com'' \<and> present (Some ''KEY1'') = Some ''KEY1''"
    by simp
  have p': "present (Some ''b@x.com'') = Some ''b@x.com'' \<and> present (Some ''KEY1'') = Some ''KEY1''"
    by simp
  have m: "present None = None \<or> present (Some ''KEY1'') = None" by simp
  have fresh: "findOne ''KEY1'' [] = None" by (simp add: findOne_def)
  have found: "findOne ''KEY1'' [?l] = Some ?l" by (simp add: findOne_def sample_license_def)
  have doc: "[] @ [\<lparr>licenseKey = ''KEY1'', type = Some ''sender'', email = ''a@x.com'', valid = True,
      deviceId = [], lastUsed = None\<rparr>] = [?l]"
    by (simp add: sample_license_def)
  from generate_outcomes [of "Some ''a@x.com''" "Some ''KEY1''" "Some ''sender''" "[]"] p fresh
  have a: "generate (Some ''a@x.com'') (Some ''KEY1'') (Some ''sender'') [] =
      (Json 200 True ''License created'', [?l])"
    unfolding doc [symmetric] by blast
  from generate_outcomes [of "Some ''b@x.com''" "Some ''KEY1''" None "[?l]"] p' found
  have b: "generate (Some ''b@x.com'') (Some ''KEY1'') None [?l] =
      (Json 409 False ''License already exists'', [?l])"
    by blast
  from generate_outcomes [of None "Some ''KEY1''" None "[?l]"] m
  have c: "generate None (Some ''KEY1'') None [?l] = (Json 400 False ''Missing fields'', [?l])"
    by blast
  from a b c show ?thesis by blast
qed

section \<open>Listing\<close>

text \<open>
  Claim C9. \<open>GET /licenses/:type\<close> of \<open>src/index.js\<close> returns the documents whose \<open>type\<close>
  is the one asked for, and \<open>GET /licenses\<close> of \<open>src/unnamed/part_000\<close> returns all
  documents: each is a rearrangement of exactly those documents, in descending order of
  \<open>lastUsed\<close>. The store is left as it was.
\<close>

theorem licenses_sorted_by_lastUsed:
  "(\<exists>ds. licenses_of_type t s = (Docs ds, s)
      \<and> mset ds = filter_mset (\<lambda>l. type l = Some t) (mset s)
      \<and> sorted_wrt (\<lambda>a b. lastUsed b \<le> lastUsed a) ds)
   \<and> (\<exists>ds. licenses_part0 s = (Docs ds, s)
      \<and> mset ds = mset s
      \<and> sorted_wrt (\<lambda>a b. lastUsed b \<le> lastUsed a) ds)"
  by (simp add: licenses_of_type_def licenses_part0_def mset_sort_lastUsed_desc
      sorted_sort_lastUsed_desc)

section \<open>The summary\<close>

text \<open>
  Claim C10. The three counts of \<open>GET /licenses/summary\<close> are the number of documents, the
  number with \<open>valid = true\<close> and the number with \<open>valid = false\<close>; the first is the sum
  of the other two, and the handler leaves the store as it was.
\<close>

theorem summary_counts_add_up:
  "summary s = (Counts (length s) (countDocuments valid s) (countDocuments (\<lambda>l. \<not> valid l) s), s)
   \<and> length s = countDocuments valid s + countDocuments (\<lambda>l. \<not> valid l) s"
  by (simp add: summary_def countDocuments_def sum_length_filter_compl)

end
